theory Spec2Isabelle
  imports Main "HOL-Library.Char_ord" "HOL-Library.List_Lexorder" "HOL-Library.Multiset"
begin

section \<open>Python values and exceptions\<close>

text \<open>
  The backend (\<^verbatim>\<open>src/backend/main.py\<close>) works on untyped Python dictionaries whose
  values are \<^verbatim>\<open>None\<close>, integers or strings. A dictionary is a map from keys to such
  values: HOL equality of maps is Python's \<^verbatim>\<open>==\<close> on dictionaries (same keys, equal
  values, insertion order ignored).
\<close>

datatype pyval = PNone | PInt int | PStr string

type_synonym dict = "string \<rightharpoonup> pyval"

text \<open>
  The exceptions the code can meet. \<^verbatim>\<open>DownloadError\<close> stands for whatever the yt-dlp
  collaborator raises, with its message; \<^verbatim>\<open>KeyError\<close> carries the missing key;
  \<^verbatim>\<open>SendError\<close> is a failed \<^verbatim>\<open>send_text\<close> on a WebSocket.
\<close>

datatype exn =
    DownloadError string
  | KeyError string
  | TypeError
  | AttributeError
  | ValueError
  | SendError

text \<open>\<^verbatim>\<open>d.get(k)\<close>: the value, or \<^verbatim>\<open>None\<close> for a missing key.\<close>

definition dget :: "dict \<Rightarrow> string \<Rightarrow> pyval" where
  "dget d k = (case d k of None \<Rightarrow> PNone | Some v \<Rightarrow> v)"

text \<open>\<^verbatim>\<open>d.get(k, default)\<close>.\<close>

definition dget_default :: "dict \<Rightarrow> string \<Rightarrow> pyval \<Rightarrow> pyval" where
  "dget_default d k dflt = (case d k of None \<Rightarrow> dflt | Some v \<Rightarrow> v)"

text \<open>\<^verbatim>\<open>d[k]\<close>: raises \<^verbatim>\<open>KeyError\<close> for a missing key.\<close>

definition dsub :: "dict \<Rightarrow> string \<Rightarrow> exn + pyval" where
  "dsub d k = (case d k of None \<Rightarrow> Inl (KeyError k) | Some v \<Rightarrow> Inr v)"

text \<open>Python truthiness and \<^verbatim>\<open>a or b\<close>.\<close>

fun truthy :: "pyval \<Rightarrow> bool" where
  "truthy PNone = False"
| "truthy (PInt n) = (n \<noteq> 0)"
| "truthy (PStr s) = (s \<noteq> [])"

definition py_or :: "pyval \<Rightarrow> pyval \<Rightarrow> pyval" where
  "py_or a b = (if truthy a then a else b)"

section \<open>ConnectionManager\<close>

text \<open>
  A WebSocket is identified by its handle. \<^verbatim>\<open>active_connections\<close> is a Python list,
  mutated in place by \<^verbatim>\<open>connect\<close> (append) and \<^verbatim>\<open>disconnect\<close> (remove).
\<close>

type_synonym websocket = nat

record connection_manager =
  active_connections :: "websocket list"

definition manager_init :: connection_manager where
  "manager_init = \<lparr>active_connections = []\<rparr>"

text \<open>\<^verbatim>\<open>connect\<close>: after the accept, the socket is appended.\<close>

definition connect :: "websocket \<Rightarrow> connection_manager \<Rightarrow> connection_manager" where
  "connect ws m = m\<lparr>active_connections := active_connections m @ [ws]\<rparr>"

text \<open>
  \<^verbatim>\<open>disconnect\<close> is \<^verbatim>\<open>self.active_connections.remove(websocket)\<close>: \<^verbatim>\<open>list.remove\<close>
  deletes the first occurrence and raises \<^verbatim>\<open>ValueError\<close> when there is none.
\<close>

definition disconnect :: "websocket \<Rightarrow> connection_manager \<Rightarrow> exn + connection_manager" where
  "disconnect ws m =
     (if ws \<in> set (active_connections m)
      then Inr (m\<lparr>active_connections := remove1 ws (active_connections m)\<rparr>)
      else Inl ValueError)"

text \<open>
  \<^verbatim>\<open>broadcast\<close> iterates over the live list and awaits each \<^verbatim>\<open>send_text\<close>. At every
  await the event loop may run other handlers, which connect or disconnect sockets on
  the same list object. What happens during the \<open>k\<close>-th await is the \<open>k\<close>-th entry of a
  schedule; a handler's \<^verbatim>\<open>disconnect\<close> that raises leaves the list as it was.
\<close>

datatype action = Connect websocket | Disconnect websocket

fun apply_action :: "action \<Rightarrow> connection_manager \<Rightarrow> connection_manager" where
  "apply_action (Connect ws) m = connect ws m"
| "apply_action (Disconnect ws) m =
     (case disconnect ws m of Inl e \<Rightarrow> m | Inr m' \<Rightarrow> m')"

definition apply_actions :: "action list \<Rightarrow> connection_manager \<Rightarrow> connection_manager" where
  "apply_actions acts m = fold apply_action acts m"

text \<open>
  The result of a broadcast: the sockets the message was delivered to, in order, the
  exception that ended the call if one did, and the manager afterwards.
\<close>

record broadcast_result =
  delivered :: "websocket list"
  raised :: "exn option"
  manager_after :: connection_manager

text \<open>
  The \<^verbatim>\<open>for\<close> loop is Python's list iterator: an index \<open>i\<close> into the list as it is
  now; the loop ends when \<open>i\<close> reaches the current length. \<open>closed\<close> holds the sockets
  on which \<^verbatim>\<open>send_text\<close> raises (closed transport, write error); nothing in
  \<^verbatim>\<open>broadcast\<close> catches that exception, so it leaves the call.
\<close>

function broadcast_loop ::
  "websocket set \<Rightarrow> action list list \<Rightarrow> nat \<Rightarrow> connection_manager \<Rightarrow> broadcast_result"
where
  "broadcast_loop closed [] i m =
     (if i < length (active_connections m) then
        (let connection = active_connections m ! i in
         if connection \<notin> closed then
           (let r = broadcast_loop closed [] (Suc i) m
            in r\<lparr>delivered := connection # delivered r\<rparr>)
         else \<lparr>delivered = [], raised = Some SendError, manager_after = m\<rparr>)
      else \<lparr>delivered = [], raised = None, manager_after = m\<rparr>)"
| "broadcast_loop closed (acts # sched) i m =
     (if i < length (active_connections m) then
        (let connection = active_connections m ! i;
             m' = apply_actions acts m in
         if connection \<notin> closed then
           (let r = broadcast_loop closed sched (Suc i) m'
            in r\<lparr>delivered := connection # delivered r\<rparr>)
         else \<lparr>delivered = [], raised = Some SendError, manager_after = m'\<rparr>)
      else \<lparr>delivered = [], raised = None, manager_after = m\<rparr>)"
  by pat_completeness auto
termination
  by (relation "measures [\<lambda>(closed, sched, i, m). length sched,
                          \<lambda>(closed, sched, i, m). length (active_connections m) - i]") auto

declare broadcast_loop.simps [simp del]

definition broadcast_during ::
  "websocket set \<Rightarrow> action list list \<Rightarrow> connection_manager \<Rightarrow> broadcast_result" where
  "broadcast_during closed sched m = broadcast_loop closed sched 0 m"

text \<open>A broadcast during which no other handler runs.\<close>

definition broadcast :: "websocket set \<Rightarrow> connection_manager \<Rightarrow> broadcast_result" where
  "broadcast closed m = broadcast_during closed [] m"

section \<open>DownloadManager\<close>

text \<open>
  \<^verbatim>\<open>str.strip()\<close> removes leading and trailing whitespace; over 8-bit characters
  Python's whitespace is the codes below. \<^verbatim>\<open>os.path.basename\<close> (POSIX) keeps what
  follows the last slash.
\<close>

definition is_space :: "char \<Rightarrow> bool" where
  "is_space c = (of_char c \<in> {9, 10, 11, 12, 13, 28, 29, 30, 31, 32, 133, 160 :: nat})"

definition strip :: "string \<Rightarrow> string" where
  "strip s = rev (dropWhile is_space (rev (dropWhile is_space s)))"

definition basename :: "string \<Rightarrow> string" where
  "basename p = rev (takeWhile (\<lambda>c. c \<noteq> CHR ''/'') (rev p))"

text \<open>On a value that is not a string, \<^verbatim>\<open>.strip()\<close> raises \<^verbatim>\<open>AttributeError\<close> and
  \<^verbatim>\<open>os.path.basename\<close> raises \<^verbatim>\<open>TypeError\<close>.\<close>

fun py_strip :: "pyval \<Rightarrow> exn + pyval" where
  "py_strip (PStr s) = Inr (PStr (strip s))"
| "py_strip v = Inl AttributeError"

fun py_basename :: "pyval \<Rightarrow> exn + pyval" where
  "py_basename (PStr s) = Inr (PStr (basename s))"
| "py_basename v = Inl TypeError"

record download_manager =
  current_status :: dict

definition download_manager_init :: download_manager where
  "download_manager_init = \<lparr>current_status = Map.empty\<rparr>"

text \<open>
  \<^verbatim>\<open>DownloadManager.hook\<close>, called by yt-dlp with its progress dictionary \<open>d\<close>. The
  new dictionary is built before it is assigned, so an exception leaves the status as
  it was. The debug \<^verbatim>\<open>print\<close> is left out.
\<close>

definition hook :: "dict \<Rightarrow> download_manager \<Rightarrow> exn + download_manager" where
  "hook d dm =
     (case dsub d ''status'' of
        Inl e \<Rightarrow> Inl e
      | Inr status \<Rightarrow>
          if status = PStr ''downloading'' then
            (case py_strip (dget_default d ''_percent_str'' (PStr [])) of
               Inl e \<Rightarrow> Inl e
             | Inr percent \<Rightarrow>
            (case py_strip (dget_default d ''_speed_str'' (PStr [])) of
               Inl e \<Rightarrow> Inl e
             | Inr speed \<Rightarrow>
            (case py_strip (dget_default d ''_eta_str'' (PStr [])) of
               Inl e \<Rightarrow> Inl e
             | Inr eta \<Rightarrow>
            (case py_basename (dget_default d ''filename'' (PStr [])) of
               Inl e \<Rightarrow> Inl e
             | Inr filename \<Rightarrow>
                 Inr (dm\<lparr>current_status :=
                   [''status'' \<mapsto> PStr ''downloading'',
                    ''percent'' \<mapsto> percent,
                    ''speed'' \<mapsto> speed,
                    ''eta'' \<mapsto> eta,
                    ''filename'' \<mapsto> filename]\<rparr>)))))
          else if status = PStr ''finished'' then
            Inr (dm\<lparr>current_status :=
              [''status'' \<mapsto> PStr ''finished'', ''filename'' \<mapsto> dget d ''filename'']\<rparr>)
          else Inr dm)"

section \<open>The /download endpoint\<close>

record download_request =
  url :: string
  format_id :: string

text \<open>
  A background task is a call of \<^verbatim>\<open>run_download\<close> that has been handed to
  \<^verbatim>\<open>BackgroundTasks.add_task\<close>: it is recorded, not run, and runs after the response
  has been sent.
\<close>

datatype task = Run_download string string

text \<open>
  \<^verbatim>\<open>start_download\<close> returns the download manager, the task list and the response
  body.
\<close>

definition start_download ::
  "download_request \<Rightarrow> download_manager \<Rightarrow> task list \<Rightarrow> download_manager \<times> task list \<times> dict"
where
  "start_download req dm background_tasks =
     (dm\<lparr>current_status := [''status'' \<mapsto> PStr ''starting'']\<rparr>,
      background_tasks @ [Run_download (url req) (format_id req)],
      [''message'' \<mapsto> PStr ''Download started''])"

section \<open>broadcast_progress\<close>

text \<open>
  One cycle of the \<^verbatim>\<open>while True\<close> loop reads \<^verbatim>\<open>download_manager.current_status\<close> up to
  three times: in the comparison, as the argument of \<^verbatim>\<open>json.dumps\<close>, and, after the
  awaited broadcast, for the \<^verbatim>\<open>copy()\<close> kept in \<^verbatim>\<open>last_status\<close>. The hook runs in a
  worker thread and \<^verbatim>\<open>start_download\<close> in another handler, so the three reads are
  three inputs of the cycle; they agree when nothing writes the status meanwhile. The
  cycle also carries the connection manager as it is when the broadcast starts, the
  sockets whose send fails, and what other handlers do during the sends.
\<close>

record cycle =
  at_compare :: dict
  at_dumps :: dict
  at_copy :: dict
  registry :: connection_manager
  closed_sockets :: "websocket set"
  during :: "action list list"

text \<open>
  What a cycle does: nothing, a broadcast of a message (with the sockets it reached), or
  a broadcast that raised, which ends the task since nothing catches the exception. The
  message is \<^verbatim>\<open>json.dumps\<close> of the dictionary; the model keeps the dictionary.
\<close>

datatype event =
    Unchanged
  | Sent dict "websocket list"
  | Died dict "websocket list" exn

text \<open>
  The loop over the cycles that are given; the \<^verbatim>\<open>sleep\<close> between two cycles and the
  test on \<^verbatim>\<open>'finished'\<close>, whose body is \<^verbatim>\<open>pass\<close>, have no effect on the state.
\<close>

fun broadcast_progress_loop :: "dict \<Rightarrow> cycle list \<Rightarrow> event list" where
  "broadcast_progress_loop last_status [] = []"
| "broadcast_progress_loop last_status (c # cs) =
     (if at_compare c \<noteq> last_status then
        (let r = broadcast_during (closed_sockets c) (during c) (registry c) in
         case raised r of
           None \<Rightarrow> Sent (at_dumps c) (delivered r) # broadcast_progress_loop (at_copy c) cs
         | Some e \<Rightarrow> [Died (at_dumps c) (delivered r) e])
      else Unchanged # broadcast_progress_loop last_status cs)"

definition broadcast_progress :: "cycle list \<Rightarrow> event list" where
  "broadcast_progress cycles = broadcast_progress_loop Map.empty cycles"

text \<open>The messages handed to \<^verbatim>\<open>manager.broadcast\<close>, in order.\<close>

fun messages :: "event list \<Rightarrow> dict list" where
  "messages [] = []"
| "messages (Unchanged # es) = messages es"
| "messages (Sent msg ws # es) = msg # messages es"
| "messages (Died msg ws e # es) = msg # messages es"

text \<open>A cycle during which nothing writes the status.\<close>

definition steady :: "cycle \<Rightarrow> bool" where
  "steady c = (at_dumps c = at_compare c \<and> at_copy c = at_compare c)"

section \<open>The /info endpoint\<close>

text \<open>
  The dictionary returned by \<^verbatim>\<open>extract_info\<close>: its scalar entries, the list under
  \<^verbatim>\<open>'entries'\<close> (empty when the key is missing) and the list under \<^verbatim>\<open>'formats'\<close>
  (empty when the key is missing, as \<^verbatim>\<open>info.get('formats', [])\<close> reads it).
\<close>

datatype info = Info (i_attrs: dict) (i_entries: "info list") (i_formats: "dict list")

record info_response =
  r_title :: pyval
  r_thumbnail :: pyval
  r_duration :: pyval
  r_formats :: "dict list"

text \<open>\<^verbatim>\<open>HTTPException(status_code=400, detail=str(e))\<close>; the model keeps \<open>e\<close>, of which the
  detail is the text.\<close>

record http_exception =
  status_code :: nat
  detail :: exn

text \<open>The dictionary appended for one format; the two subscripts raise on a missing key.\<close>

definition format_entry :: "dict \<Rightarrow> exn + dict" where
  "format_entry f =
     (case dsub f ''format_id'' of
        Inl e \<Rightarrow> Inl e
      | Inr fid \<Rightarrow>
     (case dsub f ''ext'' of
        Inl e \<Rightarrow> Inl e
      | Inr ext \<Rightarrow>
          Inr [''format_id'' \<mapsto> fid,
               ''resolution'' \<mapsto> py_or (dget f ''resolution'') (PStr ''audio only''),
               ''ext'' \<mapsto> ext,
               ''filesize'' \<mapsto> dget f ''filesize'',
               ''note'' \<mapsto> dget f ''format_note'']))"

definition is_video :: "dict \<Rightarrow> bool" where
  "is_video f = (dget f ''vcodec'' \<noteq> PStr ''none'')"

fun collect_formats :: "dict list \<Rightarrow> dict list \<Rightarrow> exn + dict list" where
  "collect_formats formats [] = Inr formats"
| "collect_formats formats (f # fs) =
     (if is_video f then
        (case format_entry f of
           Inl e \<Rightarrow> Inl e
         | Inr x \<Rightarrow> collect_formats (formats @ [x]) fs)
      else collect_formats formats fs)"

text \<open>
  \<^verbatim>\<open>formats.sort(key=lambda x: x.get('filesize') or 0, reverse=True)\<close>. Python's sort
  is stable, and with \<^verbatim>\<open>reverse=True\<close> it reverses the list, sorts it and reverses it
  again. The keys are integers or non-empty strings; integers compare with integers
  and strings with strings, and a comparison of an integer with a string raises
  \<^verbatim>\<open>TypeError\<close>, which any sort of a list holding both meets.
\<close>

definition size_key :: "dict \<Rightarrow> pyval" where
  "size_key x = py_or (dget x ''filesize'') (PInt 0)"

fun is_int :: "pyval \<Rightarrow> bool" where
  "is_int (PInt n) = True"
| "is_int v = False"

fun is_str :: "pyval \<Rightarrow> bool" where
  "is_str (PStr s) = True"
| "is_str v = False"

fun the_int :: "pyval \<Rightarrow> int" where
  "the_int (PInt n) = n"
| "the_int v = 0"

fun the_str :: "pyval \<Rightarrow> string" where
  "the_str (PStr s) = s"
| "the_str v = []"

definition sort_reverse :: "('a \<Rightarrow> 'k::linorder) \<Rightarrow> 'a list \<Rightarrow> 'a list" where
  "sort_reverse key xs = rev (sort_key key (rev xs))"

definition sort_formats :: "dict list \<Rightarrow> exn + dict list" where
  "sort_formats formats =
     (if list_all (\<lambda>x. is_int (size_key x)) formats then
        Inr (sort_reverse (\<lambda>x. the_int (size_key x)) formats)
      else if list_all (\<lambda>x. is_str (size_key x)) formats then
        Inr (sort_reverse (\<lambda>x. the_str (size_key x)) formats)
      else Inl TypeError)"

text \<open>
  If the result is a playlist with entries, its first entry is taken.
\<close>

definition first_entry :: "info \<Rightarrow> info" where
  "first_entry info =
     (if dget (i_attrs info) ''_type'' = PStr ''playlist'' \<and> i_entries info \<noteq> []
      then hd (i_entries info) else info)"

text \<open>
  The body of the \<^verbatim>\<open>try\<close>. Its argument is the outcome of the call
  \<^verbatim>\<open>ydl.extract_info(req.url, download=False)\<close> of the yt-dlp collaborator: the
  exception it raised or the dictionary it returned.
\<close>

definition get_info_body :: "exn + info \<Rightarrow> exn + info_response" where
  "get_info_body extracted =
     (case extracted of
        Inl e \<Rightarrow> Inl e
      | Inr info0 \<Rightarrow>
          (let info = first_entry info0 in
           case collect_formats [] (i_formats info) of
             Inl e \<Rightarrow> Inl e
           | Inr formats \<Rightarrow>
          (case sort_formats formats of
             Inl e \<Rightarrow> Inl e
           | Inr sorted_formats \<Rightarrow>
               Inr \<lparr>r_title = dget (i_attrs info) ''title'',
                    r_thumbnail = dget (i_attrs info) ''thumbnail'',
                    r_duration = dget (i_attrs info) ''duration'',
                    r_formats = sorted_formats\<rparr>)))"

text \<open>\<^verbatim>\<open>except Exception as e\<close>: every exception of the body becomes a 400.\<close>

definition get_info :: "exn + info \<Rightarrow> http_exception + info_response" where
  "get_info extracted =
     (case get_info_body extracted of
        Inl e \<Rightarrow> Inl \<lparr>status_code = 400, detail = e\<rparr>
      | Inr response \<Rightarrow> Inr response)"

section \<open>The status store and the loop together\<close>

text \<open>
  The status has three writers: \<^verbatim>\<open>DownloadManager.__init__\<close>, \<^verbatim>\<open>start_download\<close> and
  the hook that yt-dlp calls from the worker thread. A hook call that raises leaves the
  status as it was.
\<close>

datatype store_event = Download download_request | Progress dict

fun apply_write :: "store_event \<Rightarrow> download_manager \<Rightarrow> download_manager" where
  "apply_write (Download req) dm = fst (start_download req dm [])"
| "apply_write (Progress d) dm = (case hook d dm of Inl e \<Rightarrow> dm | Inr dm' \<Rightarrow> dm')"

definition apply_writes :: "store_event list \<Rightarrow> download_manager \<Rightarrow> download_manager" where
  "apply_writes evs dm = fold apply_write evs dm"

text \<open>
  The loop and the writers together. For each cycle of the loop a slot gives the writes
  that happen before the comparison, between the comparison and \<^verbatim>\<open>json.dumps\<close>, and
  between \<^verbatim>\<open>json.dumps\<close> and the \<^verbatim>\<open>copy()\<close>, with the connection manager, the failing
  sockets and the other handlers' actions of that cycle. The three reads of a cycle are
  then the status at these three moments.
\<close>

record slot =
  before_compare :: "store_event list"
  before_dumps :: "store_event list"
  before_copy :: "store_event list"
  slot_registry :: connection_manager
  slot_closed :: "websocket set"
  slot_during :: "action list list"

fun cycles_of :: "download_manager \<Rightarrow> slot list \<Rightarrow> cycle list" where
  "cycles_of dm [] = []"
| "cycles_of dm (s # ss) =
     (let dm1 = apply_writes (before_compare s) dm;
          dm2 = apply_writes (before_dumps s) dm1;
          dm3 = apply_writes (before_copy s) dm2
      in \<lparr>at_compare = current_status dm1,
          at_dumps = current_status dm2,
          at_copy = current_status dm3,
          registry = slot_registry s,
          closed_sockets = slot_closed s,
          during = slot_during s\<rparr> # cycles_of dm3 ss)"

text \<open>
  The three dictionary literals that the code assigns to the status (lines 182, 91 to
  97 and 100): \<^verbatim>\<open>{"status": "starting"}\<close>; the five keys \<^verbatim>\<open>status\<close>, \<^verbatim>\<open>percent\<close>,
  \<^verbatim>\<open>speed\<close>, \<^verbatim>\<open>eta\<close>, \<^verbatim>\<open>filename\<close> with \<^verbatim>\<open>"downloading"\<close> and four strings; the two keys
  \<^verbatim>\<open>status\<close> and \<^verbatim>\<open>filename\<close> with \<^verbatim>\<open>"finished"\<close> and any value.
\<close>

definition job_status_shape :: "dict \<Rightarrow> bool" where
  "job_status_shape s =
     (s = [''status'' \<mapsto> PStr ''starting'']
      \<or> s = [''status'' \<mapsto> PStr ''downloading'',
             ''percent'' \<mapsto> PStr (the_str (dget s ''percent'')),
             ''speed'' \<mapsto> PStr (the_str (dget s ''speed'')),
             ''eta'' \<mapsto> PStr (the_str (dget s ''eta'')),
             ''filename'' \<mapsto> PStr (the_str (dget s ''filename''))]
      \<or> s = [''status'' \<mapsto> PStr ''finished'', ''filename'' \<mapsto> dget s ''filename''])"

text \<open>
  What holds of \<^verbatim>\<open>last_status\<close> and the status between two cycles: while the status
  is still the initial \<^verbatim>\<open>{}\<close>, so is \<^verbatim>\<open>last_status\<close>; once written, the status is one of
  the three literals.
\<close>

definition store_ok :: "dict \<Rightarrow> download_manager \<Rightarrow> bool" where
  "store_ok last_status dm =
     ((current_status dm = Map.empty \<longrightarrow> last_status = Map.empty)
      \<and> (current_status dm \<noteq> Map.empty \<longrightarrow> job_status_shape (current_status dm)))"

section \<open>Properties of the ConnectionManager\<close>

text \<open>A broadcast that nothing interrupts visits the sockets from the index on, in
  order, and stops at the first one whose send raises.\<close>

lemma broadcast_loop_quiet:
  "broadcast_loop closed [] i m =
     \<lparr>delivered = takeWhile (\<lambda>ws. ws \<notin> closed) (drop i (active_connections m)),
      raised = (if set (drop i (active_connections m)) \<inter> closed = {} then None
                else Some SendError),
      manager_after = m\<rparr>"
proof (induction "length (active_connections m) - i" arbitrary: i)
  case 0
  then show ?case by (simp add: broadcast_loop.simps)
next
  case (Suc n)
  then have lt: "i < length (active_connections m)" by simp
  from Suc have "n = length (active_connections m) - Suc i" by simp
  from Suc.hyps(1) [OF this] lt show ?case
    by (subst broadcast_loop.simps) (simp add: Let_def Cons_nth_drop_Suc [symmetric])
qed

lemma broadcast_loop_no_failure: "raised (broadcast_loop {} sched i m) = None"
  by (induction "{} :: websocket set" sched i m rule: broadcast_loop.induct)
     (simp_all add: broadcast_loop.simps Let_def)

text \<open>Awaits during which no handler runs leave the list alone: the loop delivers to
  the next \<open>k\<close> sockets and goes on from there.\<close>

lemma broadcast_loop_skip_idle:
  "i + k \<le> length (active_connections m) \<Longrightarrow>
   broadcast_loop {} (replicate k [] @ sched) i m =
     (let r = broadcast_loop {} sched (i + k) m
      in r\<lparr>delivered := take k (drop i (active_connections m)) @ delivered r\<rparr>)"
proof (induction k arbitrary: i)
  case 0
  then show ?case by simp
next
  case (Suc k)
  then have lt: "i < length (active_connections m)"
    and le: "Suc i + k \<le> length (active_connections m)"
    by simp_all
  show ?case
    using Suc.IH [OF le] lt
    by (simp add: broadcast_loop.simps(2) apply_actions_def Let_def
        Cons_nth_drop_Suc [symmetric])
qed

lemma remove1_nth_distinct:
  "distinct xs \<Longrightarrow> j < length xs \<Longrightarrow> remove1 (xs ! j) xs = take j xs @ drop (Suc j) xs"
proof (induction xs arbitrary: j)
  case Nil
  then show ?case by simp
next
  case (Cons x xs)
  then show ?case by (cases j) auto
qed

text \<open>The manager after a broadcast is the manager before it with the actions of the
  other handlers applied, those of the awaits that were reached: the loop itself
  changes nothing. The message is delivered only to sockets whose send succeeds.\<close>

lemma broadcast_loop_registry:
  "manager_after (broadcast_loop closed sched i m)
     = fold apply_actions
         (take (length (delivered (broadcast_loop closed sched i m))
                + (if raised (broadcast_loop closed sched i m) = None then 0 else 1)) sched) m"
proof (induction closed sched i m rule: broadcast_loop.induct)
  case (1 closed i m)
  then show ?case by (simp add: broadcast_loop_quiet)
next
  case (2 closed acts sched i m)
  show ?case
  proof (cases "i < length (active_connections m)")
    case False
    then show ?thesis by (simp add: broadcast_loop.simps(2))
  next
    case True
    show ?thesis
    proof (cases "active_connections m ! i \<in> closed")
      case True
      with \<open>i < length (active_connections m)\<close> show ?thesis
        by (simp add: broadcast_loop.simps(2) Let_def)
    next
      case False
      with \<open>i < length (active_connections m)\<close> "2.IH" [OF _ refl refl] show ?thesis
        by (simp add: broadcast_loop.simps(2) Let_def)
    qed
  qed
qed

lemma broadcast_loop_delivered_open:
  "set (delivered (broadcast_loop closed sched i m)) \<inter> closed = {}"
proof (induction closed sched i m rule: broadcast_loop.induct)
  case (1 closed i m)
  show ?case by (auto simp: broadcast_loop_quiet dest: set_takeWhileD)
next
  case (2 closed acts sched i m)
  then show ?case
    by (auto simp: broadcast_loop.simps(2) Let_def)
qed

text \<open>
  C1, as the code has it. \<^verbatim>\<open>broadcast\<close> has no \<^verbatim>\<open>try\<close> and never calls
  \<^verbatim>\<open>disconnect\<close>. When no other handler connects or disconnects during the sends, the
  message reaches the registered sockets in registration order up to the first one
  whose send fails; that failure leaves the call as an exception, the manager keeps
  every socket, the failing one included, and the sockets after it get nothing; when
  no send fails, every registered socket gets the message once. Whatever the other
  handlers do during the sends, the manager afterwards differs from the one before only
  by their connects and disconnects, and only sockets whose send succeeds get the
  message.
\<close>

theorem broadcast_stops_at_first_failure:
  "broadcast closed m =
     \<lparr>delivered = takeWhile (\<lambda>ws. ws \<notin> closed) (active_connections m),
      raised = (if set (active_connections m) \<inter> closed = {} then None else Some SendError),
      manager_after = m\<rparr>
   \<and> manager_after (broadcast_during closed sched m)
       = fold apply_actions
           (take (length (delivered (broadcast_during closed sched m))
                  + (if raised (broadcast_during closed sched m) = None then 0 else 1)) sched) m
   \<and> set (delivered (broadcast_during closed sched m)) \<inter> closed = {}"
  by (simp add: broadcast_def broadcast_during_def broadcast_loop_quiet
      broadcast_loop_registry [symmetric] broadcast_loop_delivered_open)

text \<open>
  C1 as stated fails: of the sockets 1, 2, 3, socket 2 is closed. The exception is not
  caught, socket 2 stays registered and socket 3 does not get the message.
\<close>

theorem broadcast_isolation_counterexample:
  "delivered (broadcast {2} \<lparr>active_connections = [1, 2, 3]\<rparr>) = [1]
   \<and> raised (broadcast {2} \<lparr>active_connections = [1, 2, 3]\<rparr>) = Some SendError
   \<and> active_connections (manager_after (broadcast {2} \<lparr>active_connections = [1, 2, 3]\<rparr>))
       = [1, 2, 3]"
  by (simp add: broadcast_def broadcast_during_def broadcast_loop_quiet)

text \<open>
  C3, as the code has it. \<^verbatim>\<open>disconnect\<close> of a socket that is not registered raises
  \<^verbatim>\<open>ValueError\<close>; of a registered socket it removes the first occurrence, so when
  every socket is registered once, the socket is gone afterwards and a second
  \<^verbatim>\<open>disconnect\<close> of it raises.
\<close>

theorem disconnect_absent_raises:
  "(ws \<notin> set (active_connections m) \<longrightarrow> disconnect ws m = Inl ValueError)
   \<and> (ws \<in> set (active_connections m) \<and> distinct (active_connections m) \<longrightarrow>
        (\<exists>m'. disconnect ws m = Inr m'
           \<and> set (active_connections m') = set (active_connections m) - {ws}
           \<and> disconnect ws m' = Inl ValueError))"
  by (auto simp: disconnect_def)

theorem disconnect_absent_raises_witness:
  "disconnect 3 \<lparr>active_connections = [1, 2]\<rparr> = Inl ValueError
   \<and> (\<exists>m'. disconnect 1 \<lparr>active_connections = [1, 2]\<rparr> = Inr m'
         \<and> set (active_connections m') = {2}
         \<and> disconnect 1 m' = Inl ValueError)"
  using disconnect_absent_raises [of 3 "\<lparr>active_connections = [1, 2]\<rparr>"]
    disconnect_absent_raises [of 1 "\<lparr>active_connections = [1, 2]\<rparr>"]
  by auto

text \<open>C3 as stated fails: unregistering socket 1 where only socket 2 is registered
  raises.\<close>

theorem disconnect_idempotent_counterexample:
  "disconnect 1 \<lparr>active_connections = [2]\<rparr> = Inl ValueError"
  by (simp add: disconnect_def)

text \<open>
  C7, as the code has it. With every send succeeding, no schedule of connects and
  disconnects during the awaits makes \<^verbatim>\<open>broadcast\<close> raise. When the sockets are
  registered once each and the socket at position \<open>j\<close> is disconnected during the
  await at position \<open>k < j\<close> (the iteration has not reached it), every other socket
  gets the message once, in order.
\<close>

theorem removal_ahead_of_iteration:
  "raised (broadcast_during {} sched m) = None
   \<and> (distinct (active_connections m) \<and> k < j \<and> j < length (active_connections m) \<longrightarrow>
        delivered (broadcast_during {}
            (replicate k [] @ [[Disconnect (active_connections m ! j)]]) m)
          = remove1 (active_connections m ! j) (active_connections m))"
proof (intro conjI impI)
  show "raised (broadcast_during {} sched m) = None"
    by (simp add: broadcast_during_def broadcast_loop_no_failure)
next
  let ?xs = "active_connections m"
  let ?x = "?xs ! j"
  assume a: "distinct ?xs \<and> k < j \<and> j < length ?xs"
  then have k: "k < length ?xs" and mem: "?x \<in> set ?xs"
    by simp_all
  have rm: "remove1 ?x ?xs = take j ?xs @ drop (Suc j) ?xs"
    using a by (simp add: remove1_nth_distinct)
  have step: "delivered (broadcast_loop {} [[Disconnect ?x]] k m)
                = ?xs ! k # drop (Suc k) (remove1 ?x ?xs)"
    using k mem
    by (simp add: broadcast_loop.simps(2) broadcast_loop_quiet apply_actions_def
        disconnect_def Let_def)
  have "delivered (broadcast_during {} (replicate k [] @ [[Disconnect ?x]]) m)
          = take k ?xs @ ?xs ! k # drop (Suc k) (remove1 ?x ?xs)"
    using k broadcast_loop_skip_idle [of 0 k m "[[Disconnect ?x]]"] step
    by (simp add: broadcast_during_def Let_def)
  also have "\<dots> = take (Suc k) ?xs @ drop (Suc k) (remove1 ?x ?xs)"
    using k by (simp add: take_Suc_conv_app_nth)
  also have "take (Suc k) ?xs = take (Suc k) (remove1 ?x ?xs)"
    using a by (simp add: rm min_def)
  finally show "delivered (broadcast_during {} (replicate k [] @ [[Disconnect ?x]]) m)
                  = remove1 ?x ?xs"
    by simp
qed

theorem removal_ahead_of_iteration_witness:
  "raised (broadcast_during {} [[Disconnect 3]] \<lparr>active_connections = [1, 2, 3]\<rparr>) = None
   \<and> delivered (broadcast_during {} [[Disconnect 3]] \<lparr>active_connections = [1, 2, 3]\<rparr>)
       = [1, 2]"
  using removal_ahead_of_iteration
    [of "[[Disconnect 3]]" "\<lparr>active_connections = [1, 2, 3]\<rparr>" 0 2]
  by simp

text \<open>
  C7 as stated fails: sockets 1, 2, 3 are registered and socket 1 disconnects while the
  message is sent to it. The list shifts under the iterator: socket 2, which was not
  removed and is still registered, is skipped.
\<close>

theorem removal_skips_next_counterexample:
  "delivered (broadcast_during {} [[Disconnect 1]] \<lparr>active_connections = [1, 2, 3]\<rparr>)
     = [1, 3]
   \<and> active_connections
       (manager_after (broadcast_during {} [[Disconnect 1]] \<lparr>active_connections = [1, 2, 3]\<rparr>))
     = [2, 3]"
  by (simp add: broadcast_during_def broadcast_loop.simps apply_actions_def disconnect_def)

section \<open>Properties of the status, the hook and /download\<close>

lemma dict_neqI: "a k \<noteq> b k \<Longrightarrow> a \<noteq> (b :: dict)"
  by auto

lemma py_strip_Inr: "py_strip v = Inr w \<Longrightarrow> \<exists>s. v = PStr s \<and> w = PStr (strip s)"
  by (cases v) auto

lemma py_basename_Inr: "py_basename v = Inr w \<Longrightarrow> \<exists>s. v = PStr s \<and> w = PStr (basename s)"
  by (cases v) auto

lemma hook_downloading:
  assumes "hook d dm = Inr dm'" and "d ''status'' = Some (PStr ''downloading'')"
  shows "\<exists>p s e f.
           dget_default d ''_percent_str'' (PStr []) = PStr p
         \<and> dget_default d ''_speed_str'' (PStr []) = PStr s
         \<and> dget_default d ''_eta_str'' (PStr []) = PStr e
         \<and> dget_default d ''filename'' (PStr []) = PStr f
         \<and> current_status dm' =
             [''status'' \<mapsto> PStr ''downloading'',
              ''percent'' \<mapsto> PStr (strip p),
              ''speed'' \<mapsto> PStr (strip s),
              ''eta'' \<mapsto> PStr (strip e),
              ''filename'' \<mapsto> PStr (basename f)]"
  using assms
  by (auto simp: hook_def dsub_def split: sum.splits dest!: py_strip_Inr py_basename_Inr)

lemma hook_finished:
  assumes "hook d dm = Inr dm'" and "d ''status'' = Some (PStr ''finished'')"
  shows "current_status dm' =
           [''status'' \<mapsto> PStr ''finished'', ''filename'' \<mapsto> dget d ''filename'']"
  using assms by (auto simp: hook_def dsub_def)

lemma hook_other:
  assumes "hook d dm = Inr dm'" and "d ''status'' \<noteq> Some (PStr ''downloading'')"
    and "d ''status'' \<noteq> Some (PStr ''finished'')"
  shows "dm' = dm"
  using assms by (auto simp: hook_def dsub_def split: option.splits if_splits)

lemma hook_example:
  "hook
     [''status'' \<mapsto> PStr ''downloading'', ''_percent_str'' \<mapsto> PStr '' 45.2%'',
      ''_speed_str'' \<mapsto> PStr ''1.2MiB/s'', ''_eta_str'' \<mapsto> PStr ''00:10'',
      ''filename'' \<mapsto> PStr ''/tmp/a.mp4'']
     download_manager_init
   = Inr \<lparr>current_status =
     [''status'' \<mapsto> PStr ''downloading'', ''percent'' \<mapsto> PStr ''45.2%'',
      ''speed'' \<mapsto> PStr ''1.2MiB/s'', ''eta'' \<mapsto> PStr ''00:10'',
      ''filename'' \<mapsto> PStr ''a.mp4'']\<rparr>"
  by (simp add: hook_def dsub_def dget_default_def strip_def is_space_def basename_def
      download_manager_init_def)

text \<open>
  C5. Whatever the status and the task list were (in particular those of a job that is
  still running), \<^verbatim>\<open>start_download\<close> sets the status to \<^verbatim>\<open>{"status": "starting"}\<close>,
  appends one \<^verbatim>\<open>run_download\<close> task for the request, which it does not run, and
  returns its acknowledgement; it has no failing branch.
\<close>

theorem start_download_resets_and_schedules:
  "current_status (fst (start_download req dm background_tasks))
     = [''status'' \<mapsto> PStr ''starting'']
   \<and> fst (snd (start_download req dm background_tasks))
       = background_tasks @ [Run_download (url req) (format_id req)]
   \<and> snd (snd (start_download req dm background_tasks))
       = [''message'' \<mapsto> PStr ''Download started'']"
  by (simp add: start_download_def)

section \<open>Properties of broadcast_progress\<close>

lemma messages_replicate_Unchanged: "messages (replicate n Unchanged) = []"
  by (induction n) simp_all

lemma messages_from_dumps:
  "set (messages (broadcast_progress_loop last_status cycles)) \<subseteq> at_dumps ` set cycles"
  by (induction cycles arbitrary: last_status) (auto simp: Let_def split: option.splits)

lemma quiet_while_unchanged:
  "\<forall>c \<in> set cycles. at_compare c = last_status \<Longrightarrow>
   broadcast_progress_loop last_status cycles = replicate (length cycles) Unchanged"
  by (induction cycles) auto

text \<open>
  When nothing writes the status during a cycle and no broadcast raises, the messages
  are the distinct consecutive values that the cycles read, the initial \<^verbatim>\<open>{}\<close> of
  \<^verbatim>\<open>last_status\<close> not counted.
\<close>

lemma steady_messages:
  "\<forall>c \<in> set cycles. steady c
      \<and> raised (broadcast_during (closed_sockets c) (during c) (registry c)) = None \<Longrightarrow>
   messages (broadcast_progress_loop last_status cycles)
     = tl (remdups_adj (last_status # map at_compare cycles))"
proof (induction cycles arbitrary: last_status)
  case Nil
  then show ?case by simp
next
  case (Cons c cs)
  then show ?case by (cases cs) (auto simp: Let_def steady_def)
qed

text \<open>
  C2 on the code. The cycle reads the status again after the awaited broadcast, so what
  it keeps in \<^verbatim>\<open>last_status\<close> need not be what it broadcast. First run: the status is
  \<^verbatim>\<open>starting\<close> when compared and serialised, the hook writes \<^verbatim>\<open>finished\<close> during the
  send, the copy keeps \<^verbatim>\<open>finished\<close>, and the next cycle finds nothing new:
  \<^verbatim>\<open>finished\<close> is never broadcast. Second run: after the same first cycle a new
  \<^verbatim>\<open>/download\<close> writes \<^verbatim>\<open>starting\<close>, which differs from the kept \<^verbatim>\<open>finished\<close>, and the
  same message is broadcast twice in a row.
\<close>

theorem status_reread_after_broadcast:
  "broadcast_progress
     [\<lparr>at_compare = [''status'' \<mapsto> PStr ''starting''],
       at_dumps = [''status'' \<mapsto> PStr ''starting''],
       at_copy = [''status'' \<mapsto> PStr ''finished'', ''filename'' \<mapsto> PStr ''a.mp4''],
       registry = \<lparr>active_connections = [1]\<rparr>, closed_sockets = {}, during = []\<rparr>,
      \<lparr>at_compare = [''status'' \<mapsto> PStr ''finished'', ''filename'' \<mapsto> PStr ''a.mp4''],
       at_dumps = [''status'' \<mapsto> PStr ''finished'', ''filename'' \<mapsto> PStr ''a.mp4''],
       at_copy = [''status'' \<mapsto> PStr ''finished'', ''filename'' \<mapsto> PStr ''a.mp4''],
       registry = \<lparr>active_connections = [1]\<rparr>, closed_sockets = {}, during = []\<rparr>]
     = [Sent [''status'' \<mapsto> PStr ''starting''] [1], Unchanged]
   \<and> broadcast_progress
     [\<lparr>at_compare = [''status'' \<mapsto> PStr ''starting''],
       at_dumps = [''status'' \<mapsto> PStr ''starting''],
       at_copy = [''status'' \<mapsto> PStr ''finished'', ''filename'' \<mapsto> PStr ''a.mp4''],
       registry = \<lparr>active_connections = [1]\<rparr>, closed_sockets = {}, during = []\<rparr>,
      \<lparr>at_compare = [''status'' \<mapsto> PStr ''starting''],
       at_dumps = [''status'' \<mapsto> PStr ''starting''],
       at_copy = [''status'' \<mapsto> PStr ''starting''],
       registry = \<lparr>active_connections = [1]\<rparr>, closed_sockets = {}, during = []\<rparr>]
     = [Sent [''status'' \<mapsto> PStr ''starting''] [1],
        Sent [''status'' \<mapsto> PStr ''starting''] [1]]"
proof -
  have ne: "[''status'' \<mapsto> PStr ''starting''] \<noteq>
      [''status'' \<mapsto> PStr ''finished'', ''filename'' \<mapsto> PStr ''a.mp4'']"
    by (rule dict_neqI [where k = "''status''"]) simp
  show ?thesis
    by (simp add: broadcast_progress_def broadcast_during_def broadcast_loop_quiet ne)
qed

text \<open>
  C10. While every cycle reads the value that \<^verbatim>\<open>DownloadManager.__init__\<close> gave the
  status, which is the \<^verbatim>\<open>{}\<close> that \<^verbatim>\<open>last_status\<close> starts with, no cycle broadcasts.
\<close>

theorem no_broadcast_before_first_write:
  "\<forall>c \<in> set cycles. at_compare c = current_status download_manager_init \<Longrightarrow>
   broadcast_progress cycles = replicate (length cycles) Unchanged
   \<and> messages (broadcast_progress cycles) = []"
  by (simp add: broadcast_progress_def download_manager_init_def quiet_while_unchanged
      messages_replicate_Unchanged)

theorem no_broadcast_before_first_write_witness:
  "broadcast_progress
     [\<lparr>at_compare = Map.empty,
       at_dumps = Map.empty,
       at_copy = Map.empty,
       registry = \<lparr>active_connections = [1]\<rparr>, closed_sockets = {}, during = []\<rparr>,
      \<lparr>at_compare = Map.empty,
       at_dumps = Map.empty,
       at_copy = Map.empty,
       registry = \<lparr>active_connections = [1, 2]\<rparr>, closed_sockets = {}, during = []\<rparr>]
     = [Unchanged, Unchanged]"
  using no_broadcast_before_first_write
    [of "[\<lparr>at_compare = Map.empty,
       at_dumps = Map.empty,
       at_copy = Map.empty,
       registry = \<lparr>active_connections = [1]\<rparr>, closed_sockets = {}, during = []\<rparr>,
      \<lparr>at_compare = Map.empty,
       at_dumps = Map.empty,
       at_copy = Map.empty,
       registry = \<lparr>active_connections = [1, 2]\<rparr>, closed_sockets = {}, during = []\<rparr>]"]
  by (simp add: download_manager_init_def)

text \<open>Every write leaves the status as it was or makes it one of the three
  literals.\<close>

lemma shape_downloading:
  "job_status_shape [''status'' \<mapsto> PStr ''downloading'', ''percent'' \<mapsto> PStr p,
     ''speed'' \<mapsto> PStr s, ''eta'' \<mapsto> PStr e, ''filename'' \<mapsto> PStr f]"
  by (simp add: job_status_shape_def dget_def)

lemma shape_finished:
  "job_status_shape [''status'' \<mapsto> PStr ''finished'', ''filename'' \<mapsto> v]"
  by (simp add: job_status_shape_def dget_def)

lemma shape_starting: "job_status_shape [''status'' \<mapsto> PStr ''starting'']"
  by (simp add: job_status_shape_def)

lemma shape_not_empty: "job_status_shape s \<Longrightarrow> s \<noteq> Map.empty"
  by (auto simp: job_status_shape_def dest: fun_cong [where x = "''status''"])

lemma shape_no_percentage: "job_status_shape s \<Longrightarrow> s ''percentage'' = None"
proof -
  assume "job_status_shape s"
  then consider "s = [''status'' \<mapsto> PStr ''starting'']"
    | p sp e f where "s = [''status'' \<mapsto> PStr ''downloading'', ''percent'' \<mapsto> PStr p,
        ''speed'' \<mapsto> PStr sp, ''eta'' \<mapsto> PStr e, ''filename'' \<mapsto> PStr f]"
    | v where "s = [''status'' \<mapsto> PStr ''finished'', ''filename'' \<mapsto> v]"
    unfolding job_status_shape_def by blast
  then show ?thesis by cases simp_all
qed

lemma hook_status:
  "hook d dm = Inr dm' \<Longrightarrow>
   current_status dm' = current_status dm \<or> job_status_shape (current_status dm')"
  by (auto simp: hook_def shape_downloading shape_finished
      split: sum.splits if_splits dest!: py_strip_Inr py_basename_Inr)

lemma apply_write_status:
  "current_status (apply_write ev dm) = current_status dm
   \<or> job_status_shape (current_status (apply_write ev dm))"
proof (cases ev)
  case (Download req)
  then show ?thesis by (simp add: start_download_def shape_starting)
next
  case (Progress d)
  then show ?thesis using hook_status [of d dm] by (auto split: sum.splits)
qed

lemma apply_writes_status:
  "current_status (apply_writes evs dm) = current_status dm
   \<or> job_status_shape (current_status (apply_writes evs dm))"
  unfolding apply_writes_def
proof (induction evs arbitrary: dm)
  case Nil
  then show ?case by simp
next
  case (Cons ev evs)
  show ?case
    using Cons.IH [of "apply_write ev dm"] apply_write_status [of ev dm]
    by auto
qed

lemma pushed_shapes_loop:
  "store_ok last_status dm \<Longrightarrow>
   m \<in> set (messages (broadcast_progress_loop last_status (cycles_of dm slots))) \<Longrightarrow>
   job_status_shape m"
proof (induction slots arbitrary: last_status dm)
  case Nil
  then show ?case by simp
next
  case (Cons s ss)
  let ?dm1 = "apply_writes (before_compare s) dm"
  let ?dm2 = "apply_writes (before_dumps s) ?dm1"
  let ?dm3 = "apply_writes (before_copy s) ?dm2"
  have s1: "current_status ?dm1 = current_status dm \<or> job_status_shape (current_status ?dm1)"
    by (rule apply_writes_status)
  have s2: "current_status ?dm2 = current_status ?dm1 \<or> job_status_shape (current_status ?dm2)"
    by (rule apply_writes_status)
  have s3: "current_status ?dm3 = current_status ?dm2 \<or> job_status_shape (current_status ?dm3)"
    by (rule apply_writes_status)
  show ?case
  proof (cases "current_status ?dm1 = last_status")
    case True
    have "store_ok last_status ?dm3"
      using Cons.prems(1) s1 s2 s3 True
      by (auto simp: store_ok_def dest: shape_not_empty)
    moreover have "m \<in> set (messages (broadcast_progress_loop last_status (cycles_of ?dm3 ss)))"
      using Cons.prems(2) True by (simp add: Let_def)
    ultimately show ?thesis by (rule Cons.IH)
  next
    case False
    have sh1: "job_status_shape (current_status ?dm1)"
      using Cons.prems(1) s1 False by (auto simp: store_ok_def)
    then have sh2: "job_status_shape (current_status ?dm2)" using s2 by auto
    then have sh3: "job_status_shape (current_status ?dm3)" using s3 by auto
    then have ok: "store_ok (current_status ?dm3) ?dm3"
      by (auto simp: store_ok_def dest: shape_not_empty)
    from Cons.prems(2) False
    have "m = current_status ?dm2
          \<or> m \<in> set (messages (broadcast_progress_loop (current_status ?dm3) (cycles_of ?dm3 ss)))"
      by (auto simp: Let_def split: option.splits)
    then show ?thesis
      using sh2 Cons.IH [OF ok] by auto
  qed
qed

text \<open>A run: \<^verbatim>\<open>/download\<close>, then a progress event of yt-dlp, then a cycle of the loop
  with one subscriber.\<close>

lemma system_example:
  "messages (broadcast_progress (cycles_of download_manager_init
     [\<lparr>before_compare =
         [Download \<lparr>url = ''https://example.org/v'', format_id = ''best''\<rparr>,
          Progress [''status'' \<mapsto> PStr ''downloading'', ''_percent_str'' \<mapsto> PStr '' 45.2%'',
            ''_speed_str'' \<mapsto> PStr ''1.2MiB/s'', ''_eta_str'' \<mapsto> PStr ''00:10'',
            ''filename'' \<mapsto> PStr ''/tmp/a.mp4'']],
       before_dumps = [], before_copy = [],
       slot_registry = \<lparr>active_connections = [1]\<rparr>, slot_closed = {}, slot_during = []\<rparr>]))
   = [[''status'' \<mapsto> PStr ''downloading'', ''percent'' \<mapsto> PStr ''45.2%'',
       ''speed'' \<mapsto> PStr ''1.2MiB/s'', ''eta'' \<mapsto> PStr ''00:10'',
       ''filename'' \<mapsto> PStr ''a.mp4'']]"
proof -
  have ne: "[''status'' \<mapsto> PStr ''downloading'', ''percent'' \<mapsto> PStr ''45.2%'',
       ''speed'' \<mapsto> PStr ''1.2MiB/s'', ''eta'' \<mapsto> PStr ''00:10'',
       ''filename'' \<mapsto> PStr ''a.mp4''] \<noteq> Map.empty"
    by simp
  show ?thesis
    by (simp add: broadcast_progress_def apply_writes_def start_download_def
        download_manager_init_def hook_def dsub_def dget_default_def strip_def is_space_def
        basename_def broadcast_during_def broadcast_loop_quiet Let_def)
qed

text \<open>
  C6, as the code has it. Whatever \<^verbatim>\<open>/download\<close> calls and hook calls happen, and
  whenever they happen relative to the reads of the loop, every message that the loop
  broadcasts is \<^verbatim>\<open>{"status": "starting"}\<close>, or \<^verbatim>\<open>{"status": "finished", "filename": ...}\<close>,
  or a dictionary with exactly the keys \<^verbatim>\<open>status\<close> (\<^verbatim>\<open>"downloading"\<close>), \<^verbatim>\<open>percent\<close>,
  \<^verbatim>\<open>speed\<close>, \<^verbatim>\<open>eta\<close> and \<^verbatim>\<open>filename\<close>, all strings; no message has a key
  \<^verbatim>\<open>percentage\<close>. A hook call that returns writes, for a \<^verbatim>\<open>downloading\<close> event,
  \<^verbatim>\<open>percent\<close>, \<^verbatim>\<open>speed\<close> and \<^verbatim>\<open>eta\<close> as the downloader's texts with the surrounding
  whitespace removed and \<^verbatim>\<open>filename\<close> as the base name; for a \<^verbatim>\<open>finished\<close> event the
  file name as given; for any other event it leaves the status as it is.
\<close>

theorem pushed_message_shapes:
  "(m \<in> set (messages (broadcast_progress (cycles_of download_manager_init slots))) \<longrightarrow>
      job_status_shape m \<and> m ''percentage'' = None)
   \<and> (hook d dm = Inr dm' \<longrightarrow>
        (d ''status'' = Some (PStr ''downloading'') \<longrightarrow>
           (\<exists>p s e f.
               dget_default d ''_percent_str'' (PStr []) = PStr p
             \<and> dget_default d ''_speed_str'' (PStr []) = PStr s
             \<and> dget_default d ''_eta_str'' (PStr []) = PStr e
             \<and> dget_default d ''filename'' (PStr []) = PStr f
             \<and> current_status dm' =
                 [''status'' \<mapsto> PStr ''downloading'',
                  ''percent'' \<mapsto> PStr (strip p),
                  ''speed'' \<mapsto> PStr (strip s),
                  ''eta'' \<mapsto> PStr (strip e),
                  ''filename'' \<mapsto> PStr (basename f)]))
      \<and> (d ''status'' = Some (PStr ''finished'') \<longrightarrow>
           current_status dm' =
             [''status'' \<mapsto> PStr ''finished'', ''filename'' \<mapsto> dget d ''filename''])
      \<and> (d ''status'' \<noteq> Some (PStr ''downloading'')
           \<and> d ''status'' \<noteq> Some (PStr ''finished'') \<longrightarrow> dm' = dm))"
proof -
  have ok: "store_ok Map.empty download_manager_init"
    by (simp add: store_ok_def download_manager_init_def)
  have "m \<in> set (messages (broadcast_progress (cycles_of download_manager_init slots))) \<longrightarrow>
      job_status_shape m \<and> m ''percentage'' = None"
    using pushed_shapes_loop [OF ok, of m slots] shape_no_percentage [of m]
    by (auto simp: broadcast_progress_def)
  then show ?thesis
    using hook_downloading [of d dm dm'] hook_finished [of d dm dm'] hook_other [of d dm dm']
    by simp
qed

theorem pushed_message_shapes_witness:
  "messages (broadcast_progress (cycles_of download_manager_init
     [\<lparr>before_compare =
         [Download \<lparr>url = ''https://example.org/v'', format_id = ''best''\<rparr>,
          Progress [''status'' \<mapsto> PStr ''downloading'', ''_percent_str'' \<mapsto> PStr '' 45.2%'',
            ''_speed_str'' \<mapsto> PStr ''1.2MiB/s'', ''_eta_str'' \<mapsto> PStr ''00:10'',
            ''filename'' \<mapsto> PStr ''/tmp/a.mp4'']],
       before_dumps = [], before_copy = [],
       slot_registry = \<lparr>active_connections = [1]\<rparr>, slot_closed = {}, slot_during = []\<rparr>]))
     = [[''status'' \<mapsto> PStr ''downloading'', ''percent'' \<mapsto> PStr ''45.2%'',
       ''speed'' \<mapsto> PStr ''1.2MiB/s'', ''eta'' \<mapsto> PStr ''00:10'',
       ''filename'' \<mapsto> PStr ''a.mp4'']]
   \<and> job_status_shape
     [''status'' \<mapsto> PStr ''downloading'', ''percent'' \<mapsto> PStr ''45.2%'',
       ''speed'' \<mapsto> PStr ''1.2MiB/s'', ''eta'' \<mapsto> PStr ''00:10'',
       ''filename'' \<mapsto> PStr ''a.mp4'']
   \<and> current_status (projr (hook
     [''status'' \<mapsto> PStr ''downloading'', ''_percent_str'' \<mapsto> PStr '' 45.2%'',
            ''_speed_str'' \<mapsto> PStr ''1.2MiB/s'', ''_eta_str'' \<mapsto> PStr ''00:10'',
            ''filename'' \<mapsto> PStr ''/tmp/a.mp4'']
     download_manager_init))
     = [''status'' \<mapsto> PStr ''downloading'', ''percent'' \<mapsto> PStr ''45.2%'',
       ''speed'' \<mapsto> PStr ''1.2MiB/s'', ''eta'' \<mapsto> PStr ''00:10'',
       ''filename'' \<mapsto> PStr ''a.mp4'']"
  using pushed_message_shapes
    [of "[''status'' \<mapsto> PStr ''downloading'', ''percent'' \<mapsto> PStr ''45.2%'',
       ''speed'' \<mapsto> PStr ''1.2MiB/s'', ''eta'' \<mapsto> PStr ''00:10'',
       ''filename'' \<mapsto> PStr ''a.mp4'']"
      "[\<lparr>before_compare =
         [Download \<lparr>url = ''https://example.org/v'', format_id = ''best''\<rparr>,
          Progress [''status'' \<mapsto> PStr ''downloading'', ''_percent_str'' \<mapsto> PStr '' 45.2%'',
            ''_speed_str'' \<mapsto> PStr ''1.2MiB/s'', ''_eta_str'' \<mapsto> PStr ''00:10'',
            ''filename'' \<mapsto> PStr ''/tmp/a.mp4'']],
       before_dumps = [], before_copy = [],
       slot_registry = \<lparr>active_connections = [1]\<rparr>, slot_closed = {}, slot_during = []\<rparr>]"
      "[''status'' \<mapsto> PStr ''downloading'', ''_percent_str'' \<mapsto> PStr '' 45.2%'',
            ''_speed_str'' \<mapsto> PStr ''1.2MiB/s'', ''_eta_str'' \<mapsto> PStr ''00:10'',
            ''filename'' \<mapsto> PStr ''/tmp/a.mp4'']"
      download_manager_init
      "\<lparr>current_status =
     [''status'' \<mapsto> PStr ''downloading'', ''percent'' \<mapsto> PStr ''45.2%'',
       ''speed'' \<mapsto> PStr ''1.2MiB/s'', ''eta'' \<mapsto> PStr ''00:10'',
       ''filename'' \<mapsto> PStr ''a.mp4'']\<rparr>"]
    system_example hook_example
  by simp

text \<open>
  C6 as stated fails: after \<^verbatim>\<open>/download\<close> and a progress event of yt-dlp whose
  \<^verbatim>\<open>_percent_str\<close> is \<^verbatim>\<open>" 45.2%"\<close>, the message that the loop broadcasts has the key
  \<^verbatim>\<open>percent\<close> with the text \<^verbatim>\<open>"45.2%"\<close>, which is not a number, and no key
  \<^verbatim>\<open>percentage\<close>.
\<close>

theorem downloading_message_counterexample:
  "messages (broadcast_progress (cycles_of download_manager_init
     [\<lparr>before_compare =
         [Download \<lparr>url = ''https://example.org/v'', format_id = ''best''\<rparr>,
          Progress [''status'' \<mapsto> PStr ''downloading'', ''_percent_str'' \<mapsto> PStr '' 45.2%'',
            ''_speed_str'' \<mapsto> PStr ''1.2MiB/s'', ''_eta_str'' \<mapsto> PStr ''00:10'',
            ''filename'' \<mapsto> PStr ''/tmp/a.mp4'']],
       before_dumps = [], before_copy = [],
       slot_registry = \<lparr>active_connections = [1]\<rparr>, slot_closed = {}, slot_during = []\<rparr>]))
     = [[''status'' \<mapsto> PStr ''downloading'', ''percent'' \<mapsto> PStr ''45.2%'',
       ''speed'' \<mapsto> PStr ''1.2MiB/s'', ''eta'' \<mapsto> PStr ''00:10'',
       ''filename'' \<mapsto> PStr ''a.mp4'']]
   \<and> [''status'' \<mapsto> PStr ''downloading'', ''percent'' \<mapsto> PStr ''45.2%'',
       ''speed'' \<mapsto> PStr ''1.2MiB/s'', ''eta'' \<mapsto> PStr ''00:10'',
       ''filename'' \<mapsto> PStr ''a.mp4''] ''percentage'' = None
   \<and> [''status'' \<mapsto> PStr ''downloading'', ''percent'' \<mapsto> PStr ''45.2%'',
       ''speed'' \<mapsto> PStr ''1.2MiB/s'', ''eta'' \<mapsto> PStr ''00:10'',
       ''filename'' \<mapsto> PStr ''a.mp4''] ''percent'' = Some (PStr ''45.2%'')"
  by (rule conjI [OF system_example]) simp

section \<open>Properties of /info\<close>

lemma collect_formats_Inr:
  "collect_formats acc fs = Inr r \<Longrightarrow>
   map Inr r = map Inr acc @ map format_entry (filter is_video fs)"
proof (induction fs arbitrary: acc)
  case Nil
  then show ?case by simp
next
  case (Cons f fs)
  then show ?case by (auto split: if_splits sum.splits)
qed

lemma collect_formats_total:
  "list_all (\<lambda>f. \<not> isl (format_entry f)) (filter is_video fs) \<Longrightarrow>
   \<exists>r. collect_formats acc fs = Inr r"
proof (induction fs arbitrary: acc)
  case Nil
  then show ?case by simp
next
  case (Cons f fs)
  then show ?case by (auto split: sum.splits)
qed


lemma sorted_sort_reverse: "sorted (rev (map key (sort_reverse key xs)))"
  by (simp add: sort_reverse_def rev_map [symmetric])

lemma set_sort_reverse: "set (sort_reverse key xs) = set xs"
  by (simp add: sort_reverse_def)


lemma sort_formats_sorted:
  "sort_formats xs = Inr ys \<Longrightarrow>
     (list_all (\<lambda>x. is_int (size_key x)) ys
        \<and> sorted (rev (map (\<lambda>x. the_int (size_key x)) ys)))
   \<or> (list_all (\<lambda>x. is_str (size_key x)) ys
        \<and> sorted (rev (map (\<lambda>x. the_str (size_key x)) ys)))"
  by (auto simp: sort_formats_def sorted_sort_reverse set_sort_reverse list_all_iff
      split: if_splits)

lemma get_info_Inr:
  assumes "get_info extracted = Inr r"
  obtains info formats where "extracted = Inr info"
    and "collect_formats [] (i_formats (first_entry info)) = Inr formats"
    and "sort_formats formats = Inr (r_formats r)"
  using assms
  by (auto simp: get_info_def get_info_body_def Let_def split: sum.splits)

lemma format_entry_filesize:
  "format_entry f = Inr x \<Longrightarrow> dget x ''filesize'' = dget f ''filesize''"
  by (auto simp: format_entry_def dget_def split: sum.splits)

lemma format_entry_total:
  "f ''format_id'' \<noteq> None \<Longrightarrow> f ''ext'' \<noteq> None \<Longrightarrow> \<not> isl (format_entry f)"
  by (auto simp: format_entry_def dsub_def split: option.splits)

lemma size_key_entry: "format_entry f = Inr x \<Longrightarrow> size_key x = size_key f"
  by (simp add: size_key_def format_entry_filesize)

lemma collect_formats_map:
  assumes c: "collect_formats [] fs = Inr formats"
    and gh: "\<And>f x. format_entry f = Inr x \<Longrightarrow> g x = h f"
  shows "map g formats = map h (filter is_video fs)"
proof -
  have m: "map Inr formats = map format_entry (filter is_video fs)"
    using collect_formats_Inr [OF c] by simp
  then have len: "length formats = length (filter is_video fs)"
    by (metis length_map)
  show ?thesis
  proof (rule nth_equalityI)
    show "length (map g formats) = length (map h (filter is_video fs))"
      using len by simp
  next
    fix i assume "i < length (map g formats)"
    then have i: "i < length formats" by simp
    then have "map Inr formats ! i = map format_entry (filter is_video fs) ! i"
      using m by simp
    then have "format_entry (filter is_video fs ! i) = Inr (formats ! i)"
      using i len by simp
    then show "map g formats ! i = map h (filter is_video fs) ! i"
      using i len by (simp add: gh)
  qed
qed

lemma sort_formats_total:
  "list_all (\<lambda>x. is_int (size_key x)) xs \<Longrightarrow> \<exists>ys. sort_formats xs = Inr ys"
  by (simp add: sort_formats_def)

lemma sort_formats_example:
  assumes "map (\<lambda>x. dget x ''filesize'') formats = [PInt 500, PInt 2000, PInt 100]"
    and "sort_formats formats = Inr sorted_formats"
  shows "map (\<lambda>x. dget x ''filesize'') sorted_formats = [PInt 2000, PInt 500, PInt 100]"
proof -
  from assms(1) obtain a b c where f: "formats = [a, b, c]"
    and k: "dget a ''filesize'' = PInt 500" "dget b ''filesize'' = PInt 2000" "dget c ''filesize'' = PInt 100"
    by (auto simp: map_eq_Cons_conv)
  from assms(2) show ?thesis
    by (auto simp: f k sort_formats_def sort_reverse_def size_key_def py_or_def)
qed

text \<open>A run of \<^verbatim>\<open>get_info\<close>: three video formats of 500, 2000 and 100 bytes and one
  audio-only format.\<close>

lemma get_info_example:
  "get_info (Inr (Info [''title'' \<mapsto> PStr ''clip'']
        []
        [[''format_id'' \<mapsto> PStr ''18'', ''ext'' \<mapsto> PStr ''mp4'', ''vcodec'' \<mapsto> PStr ''avc1'',
          ''filesize'' \<mapsto> PInt 500],
         [''format_id'' \<mapsto> PStr ''22'', ''ext'' \<mapsto> PStr ''mp4'', ''vcodec'' \<mapsto> PStr ''avc1'',
          ''filesize'' \<mapsto> PInt 2000],
         [''format_id'' \<mapsto> PStr ''140'', ''ext'' \<mapsto> PStr ''m4a'', ''vcodec'' \<mapsto> PStr ''none'',
          ''filesize'' \<mapsto> PInt 300],
         [''format_id'' \<mapsto> PStr ''17'', ''ext'' \<mapsto> PStr ''3gp'', ''vcodec'' \<mapsto> PStr ''mp4v'',
          ''filesize'' \<mapsto> PInt 100]]))
   = Inr \<lparr>r_title = PStr ''clip'', r_thumbnail = PNone, r_duration = PNone,
       r_formats =
        [[''format_id'' \<mapsto> PStr ''22'', ''resolution'' \<mapsto> PStr ''audio only'',
          ''ext'' \<mapsto> PStr ''mp4'', ''filesize'' \<mapsto> PInt 2000, ''note'' \<mapsto> PNone],
         [''format_id'' \<mapsto> PStr ''18'', ''resolution'' \<mapsto> PStr ''audio only'',
          ''ext'' \<mapsto> PStr ''mp4'', ''filesize'' \<mapsto> PInt 500, ''note'' \<mapsto> PNone],
         [''format_id'' \<mapsto> PStr ''17'', ''resolution'' \<mapsto> PStr ''audio only'',
          ''ext'' \<mapsto> PStr ''3gp'', ''filesize'' \<mapsto> PInt 100, ''note'' \<mapsto> PNone]]\<rparr>"
  by (simp add: get_info_def get_info_body_def first_entry_def is_video_def dget_def
      format_entry_def dsub_def sort_formats_def sort_reverse_def size_key_def py_or_def)

text \<open>
  C4. A response of \<^verbatim>\<open>/info\<close> lists the formats in descending order of the sort key
  \<^verbatim>\<open>filesize or 0\<close> (a size that is missing, \<^verbatim>\<open>None\<close> or 0 counts as 0): the keys are
  all integers, or all strings, and each is at least the next. In particular, when the
  video formats of the extracted info have the sizes 500, 2000, 100 in this order,
  the response has them in the order 2000, 500, 100.
\<close>

theorem formats_by_descending_size:
  "(get_info extracted = Inr r \<longrightarrow>
      (list_all (\<lambda>x. is_int (size_key x)) (r_formats r)
         \<and> sorted (rev (map (\<lambda>x. the_int (size_key x)) (r_formats r))))
    \<or> (list_all (\<lambda>x. is_str (size_key x)) (r_formats r)
         \<and> sorted (rev (map (\<lambda>x. the_str (size_key x)) (r_formats r)))))
   \<and> (get_info (Inr info) = Inr r
       \<and> map (\<lambda>f. dget f ''filesize'') (filter is_video (i_formats (first_entry info)))
           = [PInt 500, PInt 2000, PInt 100] \<longrightarrow>
      map (\<lambda>x. dget x ''filesize'') (r_formats r) = [PInt 2000, PInt 500, PInt 100])"
proof (intro conjI impI)
  assume "get_info extracted = Inr r"
  then obtain formats where "sort_formats formats = Inr (r_formats r)"
    by (auto elim: get_info_Inr)
  then show "(list_all (\<lambda>x. is_int (size_key x)) (r_formats r)
         \<and> sorted (rev (map (\<lambda>x. the_int (size_key x)) (r_formats r))))
    \<or> (list_all (\<lambda>x. is_str (size_key x)) (r_formats r)
         \<and> sorted (rev (map (\<lambda>x. the_str (size_key x)) (r_formats r))))"
    by (rule sort_formats_sorted)
next
  assume a: "get_info (Inr info) = Inr r
       \<and> map (\<lambda>f. dget f ''filesize'') (filter is_video (i_formats (first_entry info)))
           = [PInt 500, PInt 2000, PInt 100]"
  then obtain formats where
    c: "collect_formats [] (i_formats (first_entry info)) = Inr formats"
    and s: "sort_formats formats = Inr (r_formats r)"
    by (auto elim: get_info_Inr)
  have "map (\<lambda>x. dget x ''filesize'') formats
          = map (\<lambda>f. dget f ''filesize'') (filter is_video (i_formats (first_entry info)))"
    using c by (rule collect_formats_map) (rule format_entry_filesize)
  then have "map (\<lambda>x. dget x ''filesize'') formats = [PInt 500, PInt 2000, PInt 100]"
    using a by simp
  then show "map (\<lambda>x. dget x ''filesize'') (r_formats r) = [PInt 2000, PInt 500, PInt 100]"
    using s by (rule sort_formats_example)
qed

theorem formats_by_descending_size_witness:
  "map (\<lambda>x. dget x ''filesize'')
     (r_formats (projr (get_info (Inr (Info [''title'' \<mapsto> PStr ''clip'']
        []
        [[''format_id'' \<mapsto> PStr ''18'', ''ext'' \<mapsto> PStr ''mp4'', ''vcodec'' \<mapsto> PStr ''avc1'',
          ''filesize'' \<mapsto> PInt 500],
         [''format_id'' \<mapsto> PStr ''22'', ''ext'' \<mapsto> PStr ''mp4'', ''vcodec'' \<mapsto> PStr ''avc1'',
          ''filesize'' \<mapsto> PInt 2000],
         [''format_id'' \<mapsto> PStr ''140'', ''ext'' \<mapsto> PStr ''m4a'', ''vcodec'' \<mapsto> PStr ''none'',
          ''filesize'' \<mapsto> PInt 300],
         [''format_id'' \<mapsto> PStr ''17'', ''ext'' \<mapsto> PStr ''3gp'', ''vcodec'' \<mapsto> PStr ''mp4v'',
          ''filesize'' \<mapsto> PInt 100]])))))
   = [PInt 2000, PInt 500, PInt 100]"
  using formats_by_descending_size
    [of "Inr (Info [''title'' \<mapsto> PStr ''clip'']
        []
        [[''format_id'' \<mapsto> PStr ''18'', ''ext'' \<mapsto> PStr ''mp4'', ''vcodec'' \<mapsto> PStr ''avc1'',
          ''filesize'' \<mapsto> PInt 500],
         [''format_id'' \<mapsto> PStr ''22'', ''ext'' \<mapsto> PStr ''mp4'', ''vcodec'' \<mapsto> PStr ''avc1'',
          ''filesize'' \<mapsto> PInt 2000],
         [''format_id'' \<mapsto> PStr ''140'', ''ext'' \<mapsto> PStr ''m4a'', ''vcodec'' \<mapsto> PStr ''none'',
          ''filesize'' \<mapsto> PInt 300],
         [''format_id'' \<mapsto> PStr ''17'', ''ext'' \<mapsto> PStr ''3gp'', ''vcodec'' \<mapsto> PStr ''mp4v'',
          ''filesize'' \<mapsto> PInt 100]])"
      "\<lparr>r_title = PStr ''clip'', r_thumbnail = PNone, r_duration = PNone,
       r_formats =
        [[''format_id'' \<mapsto> PStr ''22'', ''resolution'' \<mapsto> PStr ''audio only'',
          ''ext'' \<mapsto> PStr ''mp4'', ''filesize'' \<mapsto> PInt 2000, ''note'' \<mapsto> PNone],
         [''format_id'' \<mapsto> PStr ''18'', ''resolution'' \<mapsto> PStr ''audio only'',
          ''ext'' \<mapsto> PStr ''mp4'', ''filesize'' \<mapsto> PInt 500, ''note'' \<mapsto> PNone],
         [''format_id'' \<mapsto> PStr ''17'', ''resolution'' \<mapsto> PStr ''audio only'',
          ''ext'' \<mapsto> PStr ''3gp'', ''filesize'' \<mapsto> PInt 100, ''note'' \<mapsto> PNone]]\<rparr>"
      "(Info [''title'' \<mapsto> PStr ''clip'']
        []
        [[''format_id'' \<mapsto> PStr ''18'', ''ext'' \<mapsto> PStr ''mp4'', ''vcodec'' \<mapsto> PStr ''avc1'',
          ''filesize'' \<mapsto> PInt 500],
         [''format_id'' \<mapsto> PStr ''22'', ''ext'' \<mapsto> PStr ''mp4'', ''vcodec'' \<mapsto> PStr ''avc1'',
          ''filesize'' \<mapsto> PInt 2000],
         [''format_id'' \<mapsto> PStr ''140'', ''ext'' \<mapsto> PStr ''m4a'', ''vcodec'' \<mapsto> PStr ''none'',
          ''filesize'' \<mapsto> PInt 300],
         [''format_id'' \<mapsto> PStr ''17'', ''ext'' \<mapsto> PStr ''3gp'', ''vcodec'' \<mapsto> PStr ''mp4v'',
          ''filesize'' \<mapsto> PInt 100]])"]
    get_info_example
  by (simp add: first_entry_def is_video_def dget_def)



text \<open>
  C8, as the code has it. When the extractor raises, \<^verbatim>\<open>/info\<close> answers with status
  400 and the exception's text as detail; every error of \<^verbatim>\<open>/info\<close> has status 400.
  When the extractor returns and every video format of the info has the keys
  \<^verbatim>\<open>format_id\<close> and \<^verbatim>\<open>ext\<close> and an integer sort key (a size that is an integer,
  \<^verbatim>\<open>None\<close> or missing), no error is raised.
\<close>

theorem info_errors_are_client_errors:
  "get_info (Inl e) = Inl \<lparr>status_code = 400, detail = e\<rparr>
   \<and> (get_info extracted = Inl h \<longrightarrow> status_code h = 400)
   \<and> (list_all (\<lambda>f. f ''format_id'' \<noteq> None \<and> f ''ext'' \<noteq> None \<and> is_int (size_key f))
          (filter is_video (i_formats (first_entry info))) \<longrightarrow>
        (\<exists>r. get_info (Inr info) = Inr r))"
proof (intro conjI impI)
  show "get_info (Inl e) = Inl \<lparr>status_code = 400, detail = e\<rparr>"
    by (simp add: get_info_def get_info_body_def)
next
  assume "get_info extracted = Inl h"
  then show "status_code h = 400"
    by (auto simp: get_info_def split: sum.splits)
next
  let ?fs = "i_formats (first_entry info)"
  assume wf: "list_all (\<lambda>f. f ''format_id'' \<noteq> None \<and> f ''ext'' \<noteq> None \<and> is_int (size_key f))
          (filter is_video ?fs)"
  then have "list_all (\<lambda>f. \<not> isl (format_entry f)) (filter is_video ?fs)"
    by (auto simp: list_all_iff format_entry_total)
  then obtain formats where c: "collect_formats [] ?fs = Inr formats"
    using collect_formats_total by blast
  have "map size_key formats = map size_key (filter is_video ?fs)"
    using c by (rule collect_formats_map) (rule size_key_entry)
  moreover have "list_all is_int (map size_key (filter is_video ?fs))"
    using wf by (simp add: list_all_iff)
  ultimately have "list_all is_int (map size_key formats)"
    by simp
  then have "list_all (\<lambda>x. is_int (size_key x)) formats"
    by (simp add: list_all_iff)
  then obtain ys where "sort_formats formats = Inr ys"
    using sort_formats_total by blast
  with c show "\<exists>r. get_info (Inr info) = Inr r"
    by (simp add: get_info_def get_info_body_def Let_def)
qed

theorem info_errors_are_client_errors_witness:
  "get_info (Inl (DownloadError ''Unsupported URL''))
     = Inl \<lparr>status_code = 400, detail = DownloadError ''Unsupported URL''\<rparr>
   \<and> (\<exists>r. get_info (Inr (Info [''title'' \<mapsto> PStr ''clip'']
        []
        [[''format_id'' \<mapsto> PStr ''18'', ''ext'' \<mapsto> PStr ''mp4'', ''vcodec'' \<mapsto> PStr ''avc1'',
          ''filesize'' \<mapsto> PInt 500]])) = Inr r)"
  using info_errors_are_client_errors [of "DownloadError ''Unsupported URL''" undefined undefined
      "Info [''title'' \<mapsto> PStr ''clip'']
        []
        [[''format_id'' \<mapsto> PStr ''18'', ''ext'' \<mapsto> PStr ''mp4'', ''vcodec'' \<mapsto> PStr ''avc1'',
          ''filesize'' \<mapsto> PInt 500]]"]
  by (simp add: first_entry_def is_video_def dget_def size_key_def py_or_def)

text \<open>
  C8 as stated fails: the extractor returns an info whose one video format has no key
  \<^verbatim>\<open>ext\<close>; the subscript \<^verbatim>\<open>f['ext']\<close> raises inside the \<^verbatim>\<open>try\<close> and the endpoint
  answers 400 although the extraction succeeded.
\<close>

theorem info_processing_error_counterexample:
  "get_info (Inr (Info [''title'' \<mapsto> PStr ''clip'']
        []
        [[''format_id'' \<mapsto> PStr ''18'', ''vcodec'' \<mapsto> PStr ''avc1'']]))
     = Inl \<lparr>status_code = 400, detail = KeyError ''ext''\<rparr>"
  by (simp add: get_info_def get_info_body_def first_entry_def is_video_def dget_def
      format_entry_def dsub_def)

end
